theory Spec2Isabelle
  imports Complex_Main "HOL-Library.Sublist"
begin

section \<open>Values of the Python program\<close>

text \<open>
  The script \<^verbatim>\<open>Scripts/algo.py\<close> reads request lines from standard input, decodes each
  as JSON and prints one JSON response per request. Decoded requests and printed
  responses are Python values built from \<^verbatim>\<open>None\<close>, booleans, numbers, strings, lists and
  dictionaries. A dictionary is an association list in insertion order (Python dictionaries
  have distinct keys; lookup takes the first binding). Python floats are modelled as reals.
  A string is a list of characters, a character being a code point below 256.
\<close>

datatype json =
    JNull
  | JBool bool
  | JInt int
  | JFloat real
  | JStr string
  | JArr "json list"
  | JObj "(string \<times> json) list"

text \<open>
  The exceptions that can arise. \<open>LibraryError\<close> stands for any exception raised inside
  pandas, scipy or scikit-learn, tagged with the name of its class.
\<close>

datatype exn =
    JSONDecodeError
  | AttributeError
  | TypeError
  | ValueError
  | ZeroDivisionError
  | UnboundLocalError
  | LibraryError string

text \<open>What the script prints: the readiness line, then one JSON document per response.\<close>

datatype out_line = Text string | Json json

section \<open>String helpers of the standard library\<close>

text \<open>
  \<^verbatim>\<open>str.isspace\<close> and \<^verbatim>\<open>str.isupper\<close> on one character, and \<^verbatim>\<open>str.lower\<close>, for code points
  below 256: white space is TAB..CR, FS..US, SPACE, NEL and NBSP; the upper-case letters
  are A..Z and the Latin-1 capitals (U+00C0..U+00DE without the multiplication sign).
\<close>

definition isspace :: "char \<Rightarrow> bool" where
  "isspace c =
     (let n = (of_char c :: nat)
      in (9 \<le> n \<and> n \<le> 13) \<or> (28 \<le> n \<and> n \<le> 32) \<or> n = 133 \<or> n = 160)"

definition isupper :: "char \<Rightarrow> bool" where
  "isupper c =
     (let n = (of_char c :: nat)
      in (65 \<le> n \<and> n \<le> 90) \<or> (192 \<le> n \<and> n \<le> 214) \<or> (216 \<le> n \<and> n \<le> 222))"

definition lower_char :: "char \<Rightarrow> char" where
  "lower_char c = (if isupper c then char_of (of_char c + (32 :: nat)) else c)"

definition lower :: "string \<Rightarrow> string" where
  "lower s = map lower_char s"

text \<open>\<^verbatim>\<open>line.strip()\<close>: leading and trailing white space removed.\<close>

definition strip :: "string \<Rightarrow> string" where
  "strip s = rev (dropWhile isspace (rev (dropWhile isspace s)))"

text \<open>
  \<^verbatim>\<open>str.split()\<close> without a separator: the maximal runs of characters that are not white
  space. \<open>cur\<close> is the run being read.
\<close>

fun split_ws :: "string \<Rightarrow> string \<Rightarrow> string list" where
  "split_ws cur [] = (if cur = [] then [] else [cur])"
| "split_ws cur (c # cs) =
     (if isspace c then (if cur = [] then split_ws [] cs else cur # split_ws [] cs)
      else split_ws (cur @ [c]) cs)"

definition split :: "string \<Rightarrow> string list" where
  "split s = split_ws [] s"

text \<open>
  The regular expression \<^verbatim>\<open>http[s]?://\<close>, matched at the start of a string: the literal
  \<^verbatim>\<open>http\<close>, then an optional \<^verbatim>\<open>s\<close> (tried first with the \<^verbatim>\<open>s\<close> consumed, then without), then
  the literal \<^verbatim>\<open>://\<close>. \<open>re_search_url\<close> is \<^verbatim>\<open>re.search\<close>: a match at some position. No flag
  is passed to \<^verbatim>\<open>str.contains\<close>, so letters are compared as they are.
\<close>

definition re_match_url :: "string \<Rightarrow> bool" where
  "re_match_url s =
     (take 4 s = ''http'' \<and>
      (let r = drop 4 s
       in (take 1 r = ''s'' \<and> take 3 (drop 1 r) = ''://'') \<or> take 3 r = ''://''))"

fun re_search_url :: "string \<Rightarrow> bool" where
  "re_search_url [] = re_match_url []"
| "re_search_url (c # cs) = (re_match_url (c # cs) \<or> re_search_url cs)"

text \<open>Python's true division of two integers; division by zero raises.\<close>

definition py_truediv :: "int \<Rightarrow> int \<Rightarrow> exn + real" where
  "py_truediv a b = (if b = 0 then Inl ZeroDivisionError else Inr (real_of_int a / real_of_int b))"

section \<open>Utility functions of the script\<close>

text \<open>\<^verbatim>\<open>clean_text(x)\<close> is \<^verbatim>\<open>str(x).lower() if x else ""\<close>, here on a string.\<close>

definition clean_text :: "string \<Rightarrow> string" where
  "clean_text x = (if x \<noteq> [] then lower x else [])"

text \<open>
  The six numeric columns \<^verbatim>\<open>add_numeric_features\<close> adds to the data frame, for one row.
  The column \<^verbatim>\<open>has_url\<close> is the field \<open>has_url_col\<close>. Only the division of the last column
  can raise, so it is the one fallible step of a row.
\<close>

record num_features =
  body_length :: int
  word_count :: int
  has_url_col :: int
  exclamations :: int
  questions :: int
  uppercase_ratio :: real

definition has_url :: "string \<Rightarrow> int" where
  "has_url body = (if re_search_url body then 1 else 0)"

definition upper_ratio :: "string \<Rightarrow> exn + real" where
  "upper_ratio x = py_truediv (int (length (filter isupper x))) (max (int (length x)) 1)"

definition numeric_row :: "string \<Rightarrow> exn + num_features" where
  "numeric_row body =
     (case upper_ratio body of
        Inl e \<Rightarrow> Inl e
      | Inr u \<Rightarrow>
          Inr \<lparr> body_length = int (length body),
                word_count = int (length (split body)),
                has_url_col = has_url body,
                exclamations = int (count_list body (CHR ''!'')),
                questions = int (count_list body (CHR ''?'')),
                uppercase_ratio = u \<rparr>)"

text \<open>Running a fallible function over a list stops at the first exception.\<close>

fun map_exn :: "('a \<Rightarrow> exn + 'b) \<Rightarrow> 'a list \<Rightarrow> exn + 'b list" where
  "map_exn f [] = Inr []"
| "map_exn f (x # xs) =
     (case f x of
        Inl e \<Rightarrow> Inl e
      | Inr y \<Rightarrow> (case map_exn f xs of Inl e \<Rightarrow> Inl e | Inr ys \<Rightarrow> Inr (y # ys)))"

definition add_numeric_features :: "string list \<Rightarrow> exn + num_features list" where
  "add_numeric_features bodies = map_exn numeric_row bodies"

text \<open>One row of \<^verbatim>\<open>df[NUM_FEATURES].values\<close>, in the order of \<^verbatim>\<open>NUM_FEATURES\<close>.\<close>

definition num_values :: "num_features \<Rightarrow> real list" where
  "num_values f =
     [real_of_int (body_length f), real_of_int (word_count f), real_of_int (has_url_col f),
      real_of_int (exclamations f), real_of_int (questions f), uppercase_ratio f]"

section \<open>The loaded artefacts\<close>

text \<open>
  The unpickled vectorizers and per-rule models, the JSON decoder and the text of an
  exception are not part of the script; they are parameters. Each may raise. A vectorizer
  maps one document to one row, so a batch of \<open>n\<close> documents gives \<open>n\<close> rows; a model maps
  a feature row to the probability of the class "violation". \<open>models\<close> is the dictionary
  \<^verbatim>\<open>models\<close> in insertion order. \<open>pandas_other\<close> stands for what pandas and the body
  vectorizer make of a batch value that is not a list of strings: an exception, or the
  rows (body vector, numeric values) of the resulting frame.
\<close>

record env =
  json_loads :: "string \<Rightarrow> exn + json"
  body_tfidf :: "string \<Rightarrow> exn + real list"
  rule_tfidf :: "string \<Rightarrow> exn + real list"
  models :: "(string \<times> (real list \<Rightarrow> exn + real)) list"
  pandas_other :: "json \<Rightarrow> exn + (real list \<times> real list) list"
  exn_str :: "exn \<Rightarrow> string"

section \<open>Scoring one comment\<close>

text \<open>
  The inner loop over \<^verbatim>\<open>models.items()\<close>. The pair is \<^verbatim>\<open>(max_prob, violated_rule)\<close>; the
  feature row is \<^verbatim>\<open>hstack([X_body[i], X_rule, X_num[i]])\<close>.
\<close>

fun score_rules ::
  "env \<Rightarrow> real list \<Rightarrow> real list \<Rightarrow> (string \<times> (real list \<Rightarrow> exn + real)) list \<Rightarrow>
   real \<times> string option \<Rightarrow> exn + real \<times> string option" where
  "score_rules E xb xn [] acc = Inr acc"
| "score_rules E xb xn ((rule_name, model) # rest) (max_prob, violated_rule) =
     (case rule_tfidf E rule_name of
        Inl e \<Rightarrow> Inl e
      | Inr X_rule \<Rightarrow>
          (case model (xb @ X_rule @ xn) of
             Inl e \<Rightarrow> Inl e
           | Inr prob \<Rightarrow>
               score_rules E xb xn rest
                 (if prob > max_prob then (prob, Some rule_name)
                  else (max_prob, violated_rule))))"

text \<open>The result dictionary of one comment; \<^verbatim>\<open>violated_rule\<close> may still be \<^verbatim>\<open>None\<close>.\<close>

definition result_entry :: "real \<Rightarrow> string option \<Rightarrow> json" where
  "result_entry max_prob violated_rule =
     (let status = (if max_prob \<ge> 0.5 then ''Violates rule'' else ''Safe'')
      in JObj [(''probability'', JFloat max_prob),
               (''status'', JStr status),
               (''rule'', if status \<noteq> ''Safe''
                          then (case violated_rule of None \<Rightarrow> JNull | Some r \<Rightarrow> JStr r)
                          else JStr '''')])"

definition score_comment :: "env \<Rightarrow> real list \<Rightarrow> real list \<Rightarrow> exn + json" where
  "score_comment E xb xn =
     (case score_rules E xb xn (models E) (0, None) of
        Inl e \<Rightarrow> Inl e
      | Inr (max_prob, violated_rule) \<Rightarrow> Inr (result_entry max_prob violated_rule))"

section \<open>One request\<close>

text \<open>\<^verbatim>\<open>data.get(key, default)\<close>: only a dictionary has the method.\<close>

definition dict_get :: "json \<Rightarrow> string \<Rightarrow> json \<Rightarrow> exn + json" where
  "dict_get data key dflt =
     (case data of
        JObj kvs \<Rightarrow> Inr (case map_of kvs key of None \<Rightarrow> dflt | Some v \<Rightarrow> v)
      | _ \<Rightarrow> Inl AttributeError)"

text \<open>Python's truth value of a decoded value (\<^verbatim>\<open>not comments\<close> is its negation).\<close>

fun truthy :: "json \<Rightarrow> bool" where
  "truthy JNull = False"
| "truthy (JBool b) = b"
| "truthy (JInt n) = (n \<noteq> 0)"
| "truthy (JFloat x) = (x \<noteq> 0)"
| "truthy (JStr s) = (s \<noteq> [])"
| "truthy (JArr xs) = (xs \<noteq> [])"
| "truthy (JObj kvs) = (kvs \<noteq> [])"

text \<open>The strings of a list of strings; \<open>None\<close> when the value is anything else.\<close>

fun str_of :: "json \<Rightarrow> string option" where
  "str_of (JStr s) = Some s"
| "str_of _ = None"

fun all_strings :: "json list \<Rightarrow> string list option" where
  "all_strings [] = Some []"
| "all_strings (x # xs) =
     (case str_of x of
        None \<Rightarrow> None
      | Some s \<Rightarrow> (case all_strings xs of None \<Rightarrow> None | Some ss \<Rightarrow> Some (s # ss)))"

text \<open>
  The data frame of a batch of strings, then \<^verbatim>\<open>X_body\<close> and \<^verbatim>\<open>X_num\<close>: one pair of rows per
  comment.
\<close>

definition frame_rows :: "env \<Rightarrow> string list \<Rightarrow> exn + (real list \<times> real list) list" where
  "frame_rows E bodies =
     (case add_numeric_features bodies of
        Inl e \<Rightarrow> Inl e
      | Inr df \<Rightarrow>
          (case map_exn (\<lambda>b. body_tfidf E (clean_text b)) bodies of
             Inl e \<Rightarrow> Inl e
           | Inr X_body \<Rightarrow> Inr (zip X_body (map num_values df))))"

definition build_rows :: "env \<Rightarrow> json \<Rightarrow> exn + (real list \<times> real list) list" where
  "build_rows E comments =
     (case comments of
        JArr xs \<Rightarrow>
          (case all_strings xs of
             Some bodies \<Rightarrow> frame_rows E bodies
           | None \<Rightarrow> pandas_other E comments)
      | _ \<Rightarrow> pandas_other E comments)"

text \<open>
  The body of the \<^verbatim>\<open>try\<close> block. It returns the binding of the local variable
  \<^verbatim>\<open>comments\<close> when the block is left (\<open>None\<close>: never assigned) and either the exception
  raised or the response printed.
\<close>

definition empty_response :: json where
  "empty_response = JObj [(''comments'', JArr []), (''predictions'', JArr [])]"

definition try_body :: "env \<Rightarrow> json option \<Rightarrow> string \<Rightarrow> json option \<times> (exn + json)" where
  "try_body E cv line =
     (case json_loads E line of
        Inl e \<Rightarrow> (cv, Inl e)
      | Inr data \<Rightarrow>
          (case dict_get data ''comments'' (JArr []) of
             Inl e \<Rightarrow> (cv, Inl e)
           | Inr comments \<Rightarrow>
               (Some comments,
                if \<not> truthy comments then Inr empty_response
                else
                  (case build_rows E comments of
                     Inl e \<Rightarrow> Inl e
                   | Inr rows \<Rightarrow>
                       (case map_exn (\<lambda>(xb, xn). score_comment E xb xn) rows of
                          Inl e \<Rightarrow> Inl e
                        | Inr results \<Rightarrow>
                            Inr (JObj [(''comments'', comments),
                                       (''results'', JArr results)]))))))"

text \<open>
  The \<^verbatim>\<open>except\<close> clause. \<^verbatim>\<open>for _ in comments\<close> reads the local variable without a guard:
  unbound it raises, and so does a value that cannot be iterated. An exception raised
  here is not caught by anything.
\<close>

definition error_entry :: "env \<Rightarrow> exn \<Rightarrow> json" where
  "error_entry E e =
     JObj [(''probability'', JFloat 0), (''status'', JStr ''Error''), (''rule'', JStr ''''),
           (''error'', JStr (exn_str E e))]"

fun iter_count :: "json \<Rightarrow> exn + nat" where
  "iter_count (JArr xs) = Inr (length xs)"
| "iter_count (JStr s) = Inr (length s)"
| "iter_count (JObj kvs) = Inr (length kvs)"
| "iter_count _ = Inl TypeError"

definition except_clause :: "env \<Rightarrow> json option \<Rightarrow> exn \<Rightarrow> exn + json" where
  "except_clause E cv e =
     (let comments_field = (case cv of Some comments \<Rightarrow> comments | None \<Rightarrow> JArr [])
      in case cv of
           None \<Rightarrow> Inl UnboundLocalError
         | Some comments \<Rightarrow>
             (case iter_count comments of
                Inl e' \<Rightarrow> Inl e'
              | Inr n \<Rightarrow>
                  Inr (JObj [(''comments'', comments_field),
                             (''results'', JArr (replicate n (error_entry E e)))])))"

section \<open>The server loop\<close>

text \<open>
  The state of \<^verbatim>\<open>main\<close>: the local variable \<^verbatim>\<open>comments\<close>, which lives across iterations,
  and what has been printed. One iteration either ends normally or lets an exception
  escape, which ends the process.
\<close>

record state =
  comments_var :: "json option"
  out :: "out_line list"

definition process_line :: "env \<Rightarrow> state \<Rightarrow> string \<Rightarrow> exn + state" where
  "process_line E st raw =
     (let line = strip raw
      in if line = [] then Inr st
         else
           (case try_body E (comments_var st) line of
              (cv, Inr response) \<Rightarrow>
                Inr \<lparr> comments_var = cv, out = out st @ [Json response] \<rparr>
            | (cv, Inl e) \<Rightarrow>
                (case except_clause E cv e of
                   Inl e' \<Rightarrow> Inl e'
                 | Inr err_resp \<Rightarrow>
                     Inr \<lparr> comments_var = cv, out = out st @ [Json err_resp] \<rparr>)))"

text \<open>
  The loop over the lines of standard input: the final state and the exception that
  ended the process, if one did.
\<close>

fun main_loop :: "env \<Rightarrow> state \<Rightarrow> string list \<Rightarrow> state \<times> exn option" where
  "main_loop E st [] = (st, None)"
| "main_loop E st (raw # rest) =
     (case process_line E st raw of
        Inl e \<Rightarrow> (st, Some e)
      | Inr st' \<Rightarrow> main_loop E st' rest)"

definition main :: "env \<Rightarrow> string list \<Rightarrow> state \<times> exn option" where
  "main E lines =
     main_loop E \<lparr> comments_var = None, out = [Text ''Python server ready.''] \<rparr> lines"

section \<open>Notions used to state the properties\<close>

text \<open>
  The probability one rule's model returns for a comment, and the probabilities of all
  rules in the order of the registry: what the inner loop computes one by one.
\<close>

definition rule_prob :: "env \<Rightarrow> real list \<Rightarrow> real list \<Rightarrow> string \<times> (real list \<Rightarrow> exn + real) \<Rightarrow> exn + string \<times> real" where
  "rule_prob E xb xn rm =
     (case rule_tfidf E (fst rm) of
        Inl e \<Rightarrow> Inl e
      | Inr X_rule \<Rightarrow>
          (case snd rm (xb @ X_rule @ xn) of Inl e \<Rightarrow> Inl e | Inr p \<Rightarrow> Inr (fst rm, p)))"

definition rule_probs ::
  "env \<Rightarrow> real list \<Rightarrow> real list \<Rightarrow> (string \<times> (real list \<Rightarrow> exn + real)) list \<Rightarrow> exn + (string \<times> real) list" where
  "rule_probs E xb xn ms = map_exn (rule_prob E xb xn) ms"


text \<open>A field of a dictionary, as \<^verbatim>\<open>entry["status"]\<close> reads it.\<close>

definition field :: "json \<Rightarrow> string \<Rightarrow> json option" where
  "field j k = (case j of JObj kvs \<Rightarrow> map_of kvs k | _ \<Rightarrow> None)"

text \<open>
  The specification's reading of \<^verbatim>\<open>has_url\<close>, in its words: 1 if the body contains a
  substring matching \<^verbatim>\<open>http://\<close> or \<^verbatim>\<open>https://\<close> without regard to case, else 0.
\<close>

definition has_url_spec :: "string \<Rightarrow> int" where
  "has_url_spec body =
     (if sublist ''http://'' (lower body) \<or> sublist ''https://'' (lower body) then 1 else 0)"

text \<open>
  An Error-verdict response: a dictionary whose \<^verbatim>\<open>results\<close> are entries of status "Error".
\<close>

definition is_error_response :: "json \<Rightarrow> bool" where
  "is_error_response r =
     (case field r ''results'' of
        Some (JArr es) \<Rightarrow> list_all (\<lambda>e. field e ''status'' = Some (JStr ''Error'')) es
      | _ \<Rightarrow> False)"

section \<open>An example installation\<close>

text \<open>
  A small installation for the examples below. \<open>demo_loads\<close> decodes the three request
  texts used in the examples as \<^verbatim>\<open>json.loads\<close> does and rejects every other text; of those
  only \<^verbatim>\<open>oops\<close>, which is not JSON, is used. The vectorizers return the length of their
  input as a one-column row. The model of rule \<^verbatim>\<open>spam\<close> looks at the \<^verbatim>\<open>has_url\<close> column of the
  feature row (column 4 for one-column vectors), the model of \<^verbatim>\<open>hate\<close> is constant.
\<close>

definition demo_loads :: "string \<Rightarrow> exn + json" where
  "demo_loads s =
     (if s = ''{}'' then Inr (JObj [])
      else if s = ''{\"comments\": []}'' then Inr (JObj [(''comments'', JArr [])])
      else if s = ''{\"comments\": [\"Buy now!!! http://spam.biz\"]}''
        then Inr (JObj [(''comments'', JArr [JStr ''Buy now!!! http://spam.biz''])])
      else Inl JSONDecodeError)"

definition spam_model :: "real list \<Rightarrow> exn + real" where
  "spam_model row =
     (case drop 4 row of
        [] \<Rightarrow> Inl (LibraryError ''ValueError'')
      | u # _ \<Rightarrow> Inr (if u = 1 then 0.9 else 0.1))"

definition demo_env :: env where
  "demo_env =
     \<lparr> json_loads = demo_loads,
       body_tfidf = (\<lambda>doc. Inr [real (length doc)]),
       rule_tfidf = (\<lambda>name. Inr [real (length name)]),
       models = [(''spam'', spam_model), (''hate'', (\<lambda>row. Inr 0.2))],
       pandas_other = (\<lambda>v. Inl (LibraryError ''ValueError'')),
       exn_str = (\<lambda>e. ''Expecting value: line 1 column 1 (char 0)'') \<rparr>"

text \<open>The numeric rows of the comments \<^verbatim>\<open>Buy now!!! http://spam.biz\<close> and \<^verbatim>\<open>Nice post\<close>.\<close>

definition spam_row :: "real list" where
  "spam_row = [26, 3, 1, 3, 0, 1/26]"

definition calm_row :: "real list" where
  "calm_row = [9, 2, 0, 0, 0, 1/9]"

text \<open>An installation whose only model returns exactly the threshold.\<close>

definition half_env :: env where
  "half_env = demo_env \<lparr> models := [(''spam'', (\<lambda>row. Inr 0.5))] \<rparr>"

text \<open>Installations with other registries: two rules that both return 0, three rules of
  which the last two tie at 0.7, and no rules at all.\<close>

definition zero_env :: env where
  "zero_env = demo_env \<lparr> models := [(''a'', (\<lambda>row. Inr 0)), (''b'', (\<lambda>row. Inr 0))] \<rparr>"

definition tie_env :: env where
  "tie_env =
     demo_env \<lparr> models := [(''a'', (\<lambda>row. Inr 0.3)), (''b'', (\<lambda>row. Inr 0.7)),
                            (''c'', (\<lambda>row. Inr 0.7))] \<rparr>"

definition no_rules_env :: env where
  "no_rules_env = demo_env \<lparr> models := [] \<rparr>"

text \<open>A component that raises whenever it is called.\<close>

definition failing :: "'a \<Rightarrow> exn + 'b" where
  "failing x = Inl (LibraryError ''RuntimeError'')"

text \<open>The state of an iteration before which nothing was assigned or printed.\<close>

definition fresh :: state where
  "fresh = \<lparr> comments_var = None, out = [] \<rparr>"

section \<open>The inner loop\<close>

lemma rule_probs_Nil: "rule_probs E xb xn [] = Inr []"
  by (simp add: rule_probs_def)

lemma rule_probs_Cons:
  "rule_probs E xb xn ((name, model) # rest) = Inr ps \<longleftrightarrow>
     (\<exists>X_rule p ps'. rule_tfidf E name = Inr X_rule \<and> model (xb @ X_rule @ xn) = Inr p \<and>
        rule_probs E xb xn rest = Inr ps' \<and> ps = (name, p) # ps')"
  by (auto simp: rule_probs_def rule_prob_def split: sum.splits)

lemma rule_probs_names:
  "rule_probs E xb xn ms = Inr ps \<Longrightarrow> map fst ps = map fst ms"
proof (induction ms arbitrary: ps)
  case Nil
  then show ?case by (simp add: rule_probs_Nil)
next
  case (Cons rm ms)
  obtain name model where rm: "rm = (name, model)" by (cases rm)
  from Cons.prems obtain p ps' where "rule_probs E xb xn ms = Inr ps'" "ps = (name, p) # ps'"
    unfolding rm rule_probs_Cons by blast
  with Cons.IH show ?case by (simp add: rm)
qed

lemma score_rules_no_increase:
  "rule_probs E xb xn ms = Inr ps \<Longrightarrow> list_all (\<lambda>x. snd x \<le> m0) ps \<Longrightarrow>
   score_rules E xb xn ms (m0, v0) = Inr (m0, v0)"
proof (induction ms arbitrary: ps)
  case Nil
  then show ?case by simp
next
  case (Cons rm ms)
  obtain name model where rm: "rm = (name, model)" by (cases rm)
  from Cons.prems(1) obtain X_rule p ps' where
    h: "rule_tfidf E name = Inr X_rule" "model (xb @ X_rule @ xn) = Inr p"
       "rule_probs E xb xn ms = Inr ps'" "ps = (name, p) # ps'"
    unfolding rm rule_probs_Cons by blast
  from Cons.prems(2) h(4) have le: "p \<le> m0" and rest: "list_all (\<lambda>x. snd x \<le> m0) ps'"
    by simp_all
  from Cons.IH [OF h(3) rest] le h(1,2) show ?case
    by (simp add: rm)
qed

lemma score_rules_first_max:
  "rule_probs E xb xn ms = Inr (pre @ (r, M) # post) \<Longrightarrow>
   list_all (\<lambda>x. snd x < M) pre \<Longrightarrow> list_all (\<lambda>x. snd x \<le> M) post \<Longrightarrow> m0 < M \<Longrightarrow>
   score_rules E xb xn ms (m0, v0) = Inr (M, Some r)"
proof (induction pre arbitrary: ms m0 v0)
  case Nil
  from Nil.prems(1) obtain name model rest where ms: "ms = (name, model) # rest"
    by (cases ms) (auto simp: rule_probs_Nil)
  from Nil.prems(1) obtain X_rule where
    h: "rule_tfidf E name = Inr X_rule" "model (xb @ X_rule @ xn) = Inr M"
       "rule_probs E xb xn rest = Inr post" "name = r"
    unfolding ms rule_probs_Cons by auto
  from score_rules_no_increase [OF h(3) Nil.prems(3)] h(1,2,4) Nil.prems(4) show ?case
    by (simp add: ms)
next
  case (Cons x pre)
  obtain q p where x: "x = (q, p)" by (cases x)
  from Cons.prems(1) obtain name model rest where ms: "ms = (name, model) # rest"
    by (cases ms) (auto simp: rule_probs_Nil)
  from Cons.prems(1) obtain X_rule where
    h: "rule_tfidf E name = Inr X_rule" "model (xb @ X_rule @ xn) = Inr p"
       "rule_probs E xb xn rest = Inr (pre @ (r, M) # post)"
    unfolding ms rule_probs_Cons x by auto
  from Cons.prems(2) have pM: "p < M" and pre: "list_all (\<lambda>x. snd x < M) pre"
    by (simp_all add: x)
  have step: "score_rules E xb xn rest (if p > m0 then (p, Some name) else (m0, v0)) = Inr (M, Some r)"
  proof (cases "p > m0")
    case True
    with Cons.IH [OF h(3) pre Cons.prems(3) pM] show ?thesis by simp
  next
    case False
    with Cons.IH [OF h(3) pre Cons.prems(3) Cons.prems(4)] show ?thesis by simp
  qed
  with h(1,2) show ?case by (simp add: ms)
qed

lemma score_rules_invariant:
  "score_rules E xb xn ms (m0, v0) = Inr (m, v) \<Longrightarrow>
   (m = m0 \<and> v = v0) \<or> (m0 < m \<and> (\<exists>r. v = Some r \<and> r \<in> fst ` set ms))"
proof (induction ms arbitrary: m0 v0)
  case Nil
  then show ?case by simp
next
  case (Cons rm ms)
  obtain name model where rm: "rm = (name, model)" by (cases rm)
  from Cons.prems obtain X_rule p where
    h: "rule_tfidf E name = Inr X_rule" "model (xb @ X_rule @ xn) = Inr p"
       "score_rules E xb xn ms (if p > m0 then (p, Some name) else (m0, v0)) = Inr (m, v)"
    by (auto simp: rm split: sum.splits)
  show ?case
  proof (cases "p > m0")
    case True
    with h(3) have "score_rules E xb xn ms (p, Some name) = Inr (m, v)" by simp
    from Cons.IH [OF this] True show ?thesis by (auto simp: rm)
  next
    case False
    with h(3) have "score_rules E xb xn ms (m0, v0) = Inr (m, v)" by simp
    from Cons.IH [OF this] show ?thesis by (auto simp: rm)
  qed
qed

lemma Max_insert_absorb:
  fixes a b :: real
  assumes "finite S" "a \<le> b"
  shows "Max (insert a (insert b S)) = Max (insert b S)"
proof -
  have "b \<le> Max (insert b S)" using assms(1) by (intro Max_ge) simp_all
  with assms(2) have "a \<le> Max (insert b S)" by linarith
  moreover have "Max (insert a (insert b S)) = max a (Max (insert b S))"
    using assms(1) by (intro Max_insert) simp_all
  ultimately show ?thesis by (simp add: max_def)
qed

lemma score_rules_max:
  "rule_probs E xb xn ms = Inr ps \<Longrightarrow>
   \<exists>v. score_rules E xb xn ms (m0, v0) = Inr (Max (insert m0 (snd ` set ps)), v)"
proof (induction ms arbitrary: ps m0 v0)
  case Nil
  then show ?case by (simp add: rule_probs_Nil)
next
  case (Cons rm ms)
  obtain name model where rm: "rm = (name, model)" by (cases rm)
  from Cons.prems obtain X_rule p ps' where
    h: "rule_tfidf E name = Inr X_rule" "model (xb @ X_rule @ xn) = Inr p"
       "rule_probs E xb xn ms = Inr ps'" "ps = (name, p) # ps'"
    unfolding rm rule_probs_Cons by blast
  have fin: "finite (snd ` set ps')" by simp
  have img: "snd ` set ps = insert p (snd ` set ps')" by (simp add: h(4))
  show ?case
  proof (cases "p > m0")
    case True
    from Cons.IH [OF h(3), of p "Some name"] obtain v where
      "score_rules E xb xn ms (p, Some name) = Inr (Max (insert p (snd ` set ps')), v)" by blast
    moreover have "Max (insert m0 (snd ` set ps)) = Max (insert p (snd ` set ps'))"
      unfolding img by (rule Max_insert_absorb) (use True fin in simp_all)
    ultimately show ?thesis using h(1,2) True by (simp add: rm)
  next
    case False
    from Cons.IH [OF h(3), of m0 v0] obtain v where
      "score_rules E xb xn ms (m0, v0) = Inr (Max (insert m0 (snd ` set ps')), v)" by blast
    moreover have "Max (insert m0 (snd ` set ps)) = Max (insert m0 (snd ` set ps'))"
      unfolding img insert_commute [of m0 p]
      by (rule Max_insert_absorb) (use False fin in simp_all)
    ultimately show ?thesis using h(1,2) False by (simp add: rm)
  qed
qed

lemmas demo_simps =
  demo_env_def demo_loads_def spam_model_def rule_probs_def rule_prob_def
  score_comment_def result_entry_def field_def

lemma first_max_split:
  fixes ps :: "(string \<times> real) list"
  assumes "ps \<noteq> []"
  shows "\<exists>pre r post. ps = pre @ (r, Max (snd ` set ps)) # post \<and>
           list_all (\<lambda>x. snd x < Max (snd ` set ps)) pre \<and>
           list_all (\<lambda>x. snd x \<le> Max (snd ` set ps)) post"
proof -
  let ?M = "Max (snd ` set ps)"
  have fin: "finite (snd ` set ps)" and ne: "snd ` set ps \<noteq> {}" using assms by simp_all
  have le: "snd x \<le> ?M" if "x \<in> set ps" for x
    using that fin by (intro Max_ge) simp_all
  from Max_in [OF fin ne] have "\<exists>x \<in> set ps. snd x = ?M" by force
  from split_list_first_prop [OF this] obtain pre x post where
    sp: "ps = pre @ x # post" "snd x = ?M" "\<forall>y \<in> set pre. snd y \<noteq> ?M" by blast
  have "list_all (\<lambda>x. snd x < ?M) pre"
    unfolding list_all_iff
  proof
    fix y assume y: "y \<in> set pre"
    then have "y \<in> set ps" by (subst sp(1)) simp
    from le [OF this] sp(3) y show "snd y < ?M" by force
  qed
  moreover have "list_all (\<lambda>x. snd x \<le> ?M) post"
    unfolding list_all_iff
  proof
    fix y assume "y \<in> set post"
    then have "y \<in> set ps" by (subst sp(1)) simp
    from le [OF this] show "snd y \<le> ?M" .
  qed
  moreover have "ps = pre @ (fst x, ?M) # post" using sp(1,2) by (cases x) simp
  ultimately show ?thesis by blast
qed

section \<open>The verdict\<close>

text \<open>
  Claim C4. For a scored comment whose rules return the probabilities \<open>ps\<close> (in registry
  order): if the maximum probability over all rules is at least 0.5, the bound included,
  the status is "Violates rule", the reported probability is that maximum and the
  reported rule is one that attains it; otherwise the status is "Safe" and the reported
  rule is the empty string, not \<^verbatim>\<open>None\<close>.
\<close>

theorem verdict_policy:
  assumes "rule_probs E xb xn (models E) = Inr ps"
  shows "(ps \<noteq> [] \<and> 1/2 \<le> Max (snd ` set ps) \<longrightarrow>
            (\<exists>r. (r, Max (snd ` set ps)) \<in> set ps \<and>
                 score_comment E xb xn =
                   Inr (JObj [(''probability'', JFloat (Max (snd ` set ps))),
                              (''status'', JStr ''Violates rule''),
                              (''rule'', JStr r)]))) \<and>
         (\<not> (ps \<noteq> [] \<and> 1/2 \<le> Max (snd ` set ps)) \<longrightarrow>
            score_comment E xb xn =
              Inr (JObj [(''probability'', JFloat (Max (insert 0 (snd ` set ps)))),
                         (''status'', JStr ''Safe''),
                         (''rule'', JStr '''')]))"
proof (intro conjI impI)
  assume a: "ps \<noteq> [] \<and> 1/2 \<le> Max (snd ` set ps)"
  let ?M = "Max (snd ` set ps)"
  from first_max_split [of ps] a obtain pre r post where
    sp: "ps = pre @ (r, ?M) # post" "list_all (\<lambda>x. snd x < ?M) pre"
        "list_all (\<lambda>x. snd x \<le> ?M) post" by blast
  from a have pos: "0 < ?M" by linarith
  have "rule_probs E xb xn (models E) = Inr (pre @ (r, ?M) # post)"
    using assms sp(1) by simp
  from score_rules_first_max [OF this sp(2,3) pos]
  have sr: "score_rules E xb xn (models E) (0, None) = Inr (?M, Some r)" .
  have mem: "(r, ?M) \<in> set ps" by (subst sp(1)) simp
  have "score_comment E xb xn =
          Inr (JObj [(''probability'', JFloat ?M), (''status'', JStr ''Violates rule''),
                     (''rule'', JStr r)])"
    using a by (simp add: score_comment_def sr result_entry_def)
  with mem show "\<exists>r. (r, ?M) \<in> set ps \<and>
      score_comment E xb xn =
        Inr (JObj [(''probability'', JFloat ?M), (''status'', JStr ''Violates rule''),
                   (''rule'', JStr r)])" by blast
next
  assume a: "\<not> (ps \<noteq> [] \<and> 1/2 \<le> Max (snd ` set ps))"
  let ?R = "Max (insert 0 (snd ` set ps))"
  from score_rules_max [OF assms, of 0 None] obtain v where
    sr: "score_rules E xb xn (models E) (0, None) = Inr (?R, v)" by blast
  have small: "?R < 1/2"
  proof (cases "ps = []")
    case True
    then show ?thesis by simp
  next
    case False
    then have "?R = max 0 (Max (snd ` set ps))" by (intro Max_insert) simp_all
    with a False show ?thesis by (simp add: max_def)
  qed
  then show "score_comment E xb xn =
      Inr (JObj [(''probability'', JFloat ?R), (''status'', JStr ''Safe''),
                 (''rule'', JStr '''')])"
    by (simp add: score_comment_def sr result_entry_def)
qed

theorem verdict_policy_witness:
  "rule_probs half_env [1] [2] (models half_env) = Inr [(''spam'', 1/2)] \<and>
   score_comment half_env [1] [2] =
     Inr (JObj [(''probability'', JFloat (1/2)), (''status'', JStr ''Violates rule''),
                (''rule'', JStr ''spam'')]) \<and>
   rule_probs demo_env [9] calm_row (models demo_env) = Inr [(''spam'', 1/10), (''hate'', 2/10)] \<and>
   score_comment demo_env [9] calm_row =
     Inr (JObj [(''probability'', JFloat (2/10)), (''status'', JStr ''Safe''),
                (''rule'', JStr '''')])"
proof -
  have h1: "rule_probs half_env [1] [2] (models half_env) = Inr [(''spam'', 1/2)]"
    by (simp add: half_env_def demo_simps)
  have h2: "rule_probs demo_env [9] calm_row (models demo_env) = Inr [(''spam'', 1/10), (''hate'', 2/10)]"
    by (simp add: demo_simps calm_row_def)
  show ?thesis
    using h1 h2 verdict_policy [OF h1] verdict_policy [OF h2] by simp
qed

text \<open>
  Claim C10. Whenever the result of a scored comment has status "Violates rule", its
  rule field is a string, not \<^verbatim>\<open>None\<close>, and that string is a key of the model registry.
\<close>

theorem violation_names_registry_rule:
  assumes "score_comment E xb xn = Inr entry"
    and "field entry ''status'' = Some (JStr ''Violates rule'')"
  shows "\<exists>r. field entry ''rule'' = Some (JStr r) \<and> r \<in> fst ` set (models E)"
proof -
  from assms(1) obtain m v where
    sr: "score_rules E xb xn (models E) (0, None) = Inr (m, v)"
    and entry: "entry = result_entry m v"
    by (auto simp: score_comment_def split: sum.splits)
  from assms(2) have big: "1/2 \<le> m"
    by (auto simp: entry result_entry_def field_def split: if_splits)
  from score_rules_invariant [OF sr] big obtain r where
    r: "v = Some r" "r \<in> fst ` set (models E)" by auto
  from big r(1) have "field entry ''rule'' = Some (JStr r)"
    by (simp add: entry result_entry_def field_def)
  with r(2) show ?thesis by blast
qed

theorem violation_names_registry_rule_witness:
  "score_comment demo_env [26] spam_row =
     Inr (JObj [(''probability'', JFloat (9/10)), (''status'', JStr ''Violates rule''),
                (''rule'', JStr ''spam'')]) \<and>
   (\<exists>r. field (JObj [(''probability'', JFloat (9/10)), (''status'', JStr ''Violates rule''),
                (''rule'', JStr ''spam'')]) ''rule'' = Some (JStr r) \<and>
        r \<in> fst ` set (models demo_env))"
proof -
  have h1: "score_comment demo_env [26] spam_row =
     Inr (JObj [(''probability'', JFloat (9/10)), (''status'', JStr ''Violates rule''),
                (''rule'', JStr ''spam'')])"
    by (simp add: demo_simps spam_row_def)
  have h2: "field (JObj [(''probability'', JFloat (9/10)), (''status'', JStr ''Violates rule''),
                (''rule'', JStr ''spam'')]) ''status'' = Some (JStr ''Violates rule'')"
    by (simp add: field_def)
  show ?thesis
    using h1 violation_names_registry_rule [OF h1 h2] by simp
qed

section \<open>The tie-break\<close>

text \<open>
  Claim C5, as amended. When the largest probability \<open>M\<close> returned for a comment is greater
  than 0, the rule the inner loop selects is the first rule in registry order that
  attains \<open>M\<close>: every rule before it returns less than \<open>M\<close>, the rules after it return at
  most \<open>M\<close>, ties included.
\<close>

theorem first_maximum_selected:
  assumes "rule_probs E xb xn (models E) = Inr (pre @ (r, M) # post)"
    and "\<forall>x \<in> set pre. snd x < M"
    and "\<forall>x \<in> set post. snd x \<le> M"
    and "0 < M"
  shows "score_rules E xb xn (models E) (0, None) = Inr (M, Some r)"
proof -
  from assms(2) have pre: "list_all (\<lambda>x. snd x < M) pre" by (simp add: list_all_iff)
  from assms(3) have post: "list_all (\<lambda>x. snd x \<le> M) post" by (simp add: list_all_iff)
  from assms(1) pre post assms(4) show ?thesis by (rule score_rules_first_max)
qed

text \<open>Three rules, the last two tied at 0.7: the first of the two is selected.\<close>

theorem first_maximum_selected_witness:
  "rule_probs tie_env [9] calm_row (models tie_env) =
     Inr ([(''a'', 3/10)] @ (''b'', 7/10) # [(''c'', 7/10)]) \<and>
   score_rules tie_env [9] calm_row (models tie_env) (0, None) = Inr (7/10, Some ''b'')"
proof -
  have h: "rule_probs tie_env [9] calm_row (models tie_env) =
     Inr ([(''a'', 3/10)] @ (''b'', 7/10) # [(''c'', 7/10)])"
    by (simp add: tie_env_def demo_simps)
  have "score_rules tie_env [9] calm_row (models tie_env) (0, None) = Inr (7/10, Some ''b'')"
    by (rule first_maximum_selected [OF h]) simp_all
  with h show ?thesis by simp
qed

text \<open>
  The claim as stated fails when the tie is at probability 0: both rules attain the
  maximum 0, the running maximum starts at 0 and is replaced only by a strictly greater
  probability, so no rule is selected and \<^verbatim>\<open>violated_rule\<close> stays \<^verbatim>\<open>None\<close>.
\<close>

theorem tie_at_zero_counterexample:
  "rule_probs zero_env [9] calm_row (models zero_env) = Inr [(''a'', 0), (''b'', 0)] \<and>
   score_rules zero_env [9] calm_row (models zero_env) (0, None) = Inr (0, None)"
  by (simp add: zero_env_def demo_simps)

section \<open>Numeric features\<close>

lemma take_append_iff:
  assumes "length a = n" "length b = m"
  shows "take (n + m) s = a @ b \<longleftrightarrow> take n s = a \<and> take m (drop n s) = b"
proof
  assume h: "take (n + m) s = a @ b"
  have "take n s = take n (take (n + m) s)" by simp
  also have "\<dots> = a" using assms by (simp only: h) simp
  finally have 1: "take n s = a" .
  have "take m (drop n s) = drop n (take (n + m) s)"
    by (simp add: drop_take)
  also have "\<dots> = b" using assms by (simp only: h) simp
  finally show "take n s = a \<and> take m (drop n s) = b"
    using 1 by simp
next
  assume "take n s = a \<and> take m (drop n s) = b"
  then show "take (n + m) s = a @ b"
    by (simp add: take_add)
qed

lemma prefix_take: "prefix p s \<longleftrightarrow> take (length p) s = p"
  by (metis append_take_drop_id prefix_def append_eq_conv_conj)

lemma re_match_url_prefix:
  "re_match_url s \<longleftrightarrow> prefix ''http://'' s \<or> prefix ''https://'' s"
proof -
  have a: "take 7 s = ''http://'' \<longleftrightarrow> take 4 s = ''http'' \<and> take 3 (drop 4 s) = ''://''"
    using take_append_iff [of "''http''" 4 "''://''" 3 s] by simp
  have b: "take 8 s = ''https://'' \<longleftrightarrow> take 4 s = ''http'' \<and> take 4 (drop 4 s) = ''s://''"
    using take_append_iff [of "''http''" 4 "''s://''" 4 s] by simp
  have c: "take 4 r = ''s://'' \<longleftrightarrow> take 1 r = ''s'' \<and> take 3 (drop 1 r) = ''://''" for r :: string
    using take_append_iff [of "''s''" 1 "''://''" 3 r] by simp
  have l7: "length ''http://'' = 7" and l8: "length ''https://'' = 8" by simp_all
  have "prefix ''http://'' s \<longleftrightarrow> take 7 s = ''http://''"
    using prefix_take [of "''http://''" s] unfolding l7 .
  moreover have "prefix ''https://'' s \<longleftrightarrow> take 8 s = ''https://''"
    using prefix_take [of "''https://''" s] unfolding l8 .
  ultimately show ?thesis
    unfolding re_match_url_def Let_def a b c by blast
qed

lemma sublist_step: "sublist p (c # cs) \<longleftrightarrow> prefix p (c # cs) \<or> sublist p cs"
  by (cases p) (simp_all add: sublist_Cons_right)

lemma re_search_url_sublist:
  "re_search_url s \<longleftrightarrow> sublist ''http://'' s \<or> sublist ''https://'' s"
proof (induction s)
  case Nil
  then show ?case by (simp add: re_match_url_def)
next
  case (Cons c cs)
  show ?case
    unfolding re_search_url.simps re_match_url_prefix Cons.IH
      sublist_step [of "''http://''"] sublist_step [of "''https://''"]
    by blast
qed

text \<open>
  Claim C2, as amended. \<^verbatim>\<open>has_url\<close> is 1 if the body contains \<^verbatim>\<open>http://\<close> or \<^verbatim>\<open>https://\<close>
  written exactly so, in lower case, and 0 otherwise: the match is case-sensitive.
\<close>

theorem has_url_case_sensitive:
  "has_url body = (if sublist ''http://'' body \<or> sublist ''https://'' body then 1 else 0)"
  by (simp only: has_url_def re_search_url_sublist)

lemmas str_simps = isspace_def isupper_def lower_def lower_char_def strip_def split_def
  re_match_url_def has_url_def

text \<open>
  The claim as stated fails on an upper-case scheme: the specification's reading counts
  \<^verbatim>\<open>HTTP://spam.biz\<close> as a URL, the code does not.
\<close>

theorem has_url_counterexample:
  "has_url ''HTTP://spam.biz'' = 0 \<and> has_url_spec ''HTTP://spam.biz'' = 1"
  by (simp add: str_simps has_url_spec_def sublist_code char_of_def bit_Suc_0_iff)

theorem has_url_case_sensitive_witness:
  "has_url ''see https://a.b'' = 1 \<and> has_url ''HTTPS://a.b'' = 0"
  using has_url_case_sensitive [of "''see https://a.b''"] has_url_case_sensitive [of "''HTTPS://a.b''"]
  by (simp add: sublist_code)

lemma upper_ratio_total:
  "\<exists>u. upper_ratio x = Inr u \<and> 0 \<le> u \<and> u \<le> 1"
proof -
  let ?n = "int (length (filter isupper x))"
  let ?d = "max (int (length x)) 1"
  have d: "1 \<le> ?d" by simp
  have "length (filter isupper x) \<le> length x" by (rule length_filter_le)
  then have n: "0 \<le> ?n" "?n \<le> ?d" by linarith+
  have eq: "upper_ratio x = Inr (real_of_int ?n / real_of_int ?d)"
    using d unfolding upper_ratio_def py_truediv_def by (simp del: of_int_max)
  have "0 \<le> real_of_int ?n / real_of_int ?d" using n(1) d by (intro divide_nonneg_pos) linarith+
  moreover have "real_of_int ?n / real_of_int ?d \<le> 1"
  proof -
    have "real_of_int ?n \<le> real_of_int ?d" using n(2) by (simp only: of_int_le_iff)
    moreover have "0 < real_of_int ?d" using d by linarith
    ultimately show ?thesis by (simp only: divide_le_eq_1_pos)
  qed
  ultimately show ?thesis using eq by blast
qed

lemma numeric_row_total:
  "\<exists>f. numeric_row body = Inr f \<and> 0 \<le> uppercase_ratio f \<and> uppercase_ratio f \<le> 1"
proof -
  from upper_ratio_total [of body] obtain u where
    u: "upper_ratio body = Inr u" "0 \<le> u" "u \<le> 1" by blast
  then show ?thesis by (simp add: numeric_row_def)
qed

lemma map_exn_total:
  assumes "\<And>x. x \<in> set xs \<Longrightarrow> \<exists>y. f x = Inr y \<and> P y"
  shows "\<exists>ys. map_exn f xs = Inr ys \<and> length ys = length xs \<and> list_all P ys"
  using assms
proof (induction xs)
  case Nil
  then show ?case by simp
next
  case (Cons x xs)
  from Cons.prems [of x] obtain y where y: "f x = Inr y" "P y" by auto
  from Cons.IH Cons.prems obtain ys where
    ys: "map_exn f xs = Inr ys" "length ys = length xs" "list_all P ys" by auto
  from y ys show ?case by simp
qed

text \<open>
  Claim C9. On every batch of strings, the empty string included, the numeric feature
  extraction returns (the division never raises, its denominator being at least 1), with
  one row per string, and every upper-case ratio lies between 0 and 1.
\<close>

theorem numeric_features_total:
  "\<exists>fs. add_numeric_features bodies = Inr fs \<and> length fs = length bodies \<and>
        list_all (\<lambda>f. 0 \<le> uppercase_ratio f \<and> uppercase_ratio f \<le> 1) fs"
  unfolding add_numeric_features_def
  by (rule map_exn_total) (rule numeric_row_total)

theorem numeric_features_total_witness:
  "add_numeric_features ['''', ''OK?''] =
     Inr [\<lparr>body_length = 0, word_count = 0, has_url_col = 0, exclamations = 0, questions = 0,
           uppercase_ratio = 0\<rparr>,
          \<lparr>body_length = 3, word_count = 1, has_url_col = 0, exclamations = 0, questions = 1,
           uppercase_ratio = 2/3\<rparr>] \<and>
   (\<exists>fs. add_numeric_features ['''', ''OK?''] = Inr fs \<and> length fs = 2 \<and>
        list_all (\<lambda>f. 0 \<le> uppercase_ratio f \<and> uppercase_ratio f \<le> 1) fs)"
proof -
  have "add_numeric_features ['''', ''OK?''] =
     Inr [\<lparr>body_length = 0, word_count = 0, has_url_col = 0, exclamations = 0, questions = 0,
           uppercase_ratio = 0\<rparr>,
          \<lparr>body_length = 3, word_count = 1, has_url_col = 0, exclamations = 0, questions = 1,
           uppercase_ratio = 2/3\<rparr>]"
    by (simp add: add_numeric_features_def numeric_row_def upper_ratio_def py_truediv_def str_simps)
  then show ?thesis
    using numeric_features_total [of "['''', ''OK?'']"] by simp
qed

section \<open>Requests\<close>

lemma falsy_comments_response:
  assumes "strip raw \<noteq> []"
    and "json_loads E (strip raw) = Inr data"
    and "dict_get data ''comments'' (JArr []) = Inr c"
    and "\<not> truthy c"
  shows "process_line E st raw =
           Inr \<lparr> comments_var = Some c, out = out st @ [Json empty_response] \<rparr>"
  using assms by (simp add: process_line_def try_body_def)

lemma blank_line_skipped:
  "strip raw = [] \<Longrightarrow> process_line E st raw = Inr st"
  by (simp add: process_line_def)

lemma process_line_one_response:
  assumes "strip raw \<noteq> []" and "process_line E st raw = Inr st'"
  shows "\<exists>resp. out st' = out st @ [Json resp]"
  using assms
  by (auto simp: process_line_def split: prod.splits sum.splits)

text \<open>
  Claim C7. A request whose decoded comment list is empty is answered with exactly
  \<^verbatim>\<open>{"comments": [], "predictions": []}\<close>, the field being \<^verbatim>\<open>predictions\<close> and not \<^verbatim>\<open>results\<close>,
  and no feature extraction or scoring takes place: the answer is the same whatever the
  vectorizers, the models and pandas would do, even if each of them raised.
\<close>

theorem empty_batch_response:
  assumes "strip raw \<noteq> []"
    and "json_loads E (strip raw) = Inr (JObj kvs)"
    and "map_of kvs ''comments'' = Some (JArr [])"
  shows "process_line (E \<lparr> body_tfidf := bt, rule_tfidf := rt, models := ms, pandas_other := po \<rparr>)
           st raw =
         Inr \<lparr> comments_var = Some (JArr []),
               out = out st @ [Json (JObj [(''comments'', JArr []), (''predictions'', JArr [])])] \<rparr>"
proof -
  let ?E = "E \<lparr> body_tfidf := bt, rule_tfidf := rt, models := ms, pandas_other := po \<rparr>"
  have "json_loads ?E (strip raw) = Inr (JObj kvs)" using assms(2) by simp
  moreover have "dict_get (JObj kvs) ''comments'' (JArr []) = Inr (JArr [])"
    using assms(3) by (simp add: dict_get_def)
  moreover have "\<not> truthy (JArr [])" by simp
  ultimately have "process_line ?E st raw =
      Inr \<lparr> comments_var = Some (JArr []), out = out st @ [Json empty_response] \<rparr>"
    using assms(1) by (intro falsy_comments_response)
  then show ?thesis by (simp only: empty_response_def)
qed

theorem empty_batch_response_witness:
  "process_line
     (demo_env \<lparr> body_tfidf := failing, rule_tfidf := failing,
                 models := [(''spam'', failing)], pandas_other := failing \<rparr>)
     fresh ''{\"comments\": []}'' =
   Inr \<lparr> comments_var = Some (JArr []),
         out = [Json (JObj [(''comments'', JArr []), (''predictions'', JArr [])])] \<rparr>"
proof -
  have h1: "strip ''{\"comments\": []}'' \<noteq> []"
    by (simp add: strip_def isspace_def)
  have h2: "json_loads demo_env (strip ''{\"comments\": []}'') = Inr (JObj [(''comments'', JArr [])])"
    by (simp add: strip_def isspace_def demo_env_def demo_loads_def)
  have h3: "map_of [(''comments'', JArr [])] ''comments'' = Some (JArr [])" by simp
  show ?thesis
    using empty_batch_response [OF h1 h2 h3, where bt = failing and rt = failing
        and ms = "[(''spam'', failing)]" and po = failing and st = fresh]
    by (simp add: fresh_def)
qed

text \<open>
  Claim C3, as amended. A line that decodes as a JSON object without the \<^verbatim>\<open>comments\<close>
  field is treated as an empty batch, \<^verbatim>\<open>data.get\<close> supplying the default \<^verbatim>\<open>[]\<close>: the
  response is \<^verbatim>\<open>{"comments": [], "predictions": []}\<close>, a success response without any
  "Error" entry.
\<close>

theorem missing_field_is_empty_batch:
  assumes "strip raw \<noteq> []"
    and "json_loads E (strip raw) = Inr (JObj kvs)"
    and "map_of kvs ''comments'' = None"
  shows "process_line E st raw =
         Inr \<lparr> comments_var = Some (JArr []),
               out = out st @ [Json (JObj [(''comments'', JArr []), (''predictions'', JArr [])])] \<rparr>"
proof -
  have "dict_get (JObj kvs) ''comments'' (JArr []) = Inr (JArr [])"
    using assms(3) by (simp add: dict_get_def)
  moreover have "\<not> truthy (JArr [])" by simp
  ultimately have "process_line E st raw =
      Inr \<lparr> comments_var = Some (JArr []), out = out st @ [Json empty_response] \<rparr>"
    using assms(1,2) by (intro falsy_comments_response)
  then show ?thesis by (simp only: empty_response_def)
qed

theorem missing_field_is_empty_batch_witness:
  "process_line demo_env fresh '' {} '' =
   Inr \<lparr> comments_var = Some (JArr []),
         out = [Json (JObj [(''comments'', JArr []), (''predictions'', JArr [])])] \<rparr>"
proof -
  have h1: "strip '' {} '' \<noteq> []"
    by (simp add: strip_def isspace_def)
  have h2: "json_loads demo_env (strip '' {} '') = Inr (JObj [])"
    by (simp add: strip_def isspace_def demo_env_def demo_loads_def)
  have h3: "map_of ([] :: (string \<times> json) list) ''comments'' = None" by simp
  show ?thesis
    using missing_field_is_empty_batch [OF h1 h2 h3, where st = fresh]
    by (simp add: fresh_def)
qed

text \<open>
  The claim as stated fails on the line \<^verbatim>\<open>{}\<close>: the response is the empty-batch response,
  which is not an Error-verdict response.
\<close>

theorem missing_field_counterexample:
  "process_line demo_env fresh ''{}'' =
     Inr \<lparr> comments_var = Some (JArr []),
           out = [Json (JObj [(''comments'', JArr []), (''predictions'', JArr [])])] \<rparr> \<and>
   \<not> is_error_response (JObj [(''comments'', JArr []), (''predictions'', JArr [])])"
  by (simp add: process_line_def try_body_def strip_def isspace_def demo_env_def demo_loads_def
      dict_get_def empty_response_def fresh_def is_error_response_def field_def)

lemma all_strings_map_JStr: "all_strings (map JStr bodies) = Some bodies"
  by (induction bodies) simp_all

lemma map_exn_const:
  assumes "\<And>x. x \<in> set xs \<Longrightarrow> f x = Inr c"
  shows "map_exn f xs = Inr (replicate (length xs) c)"
  using assms by (induction xs) simp_all

lemma score_comment_no_rules:
  "models E = [] \<Longrightarrow>
   score_comment E xb xn =
     Inr (JObj [(''probability'', JFloat 0), (''status'', JStr ''Safe''), (''rule'', JStr '''')])"
  by (simp add: score_comment_def result_entry_def)

lemma frame_rows_total:
  assumes "\<forall>b \<in> set bodies. \<exists>v. body_tfidf E (clean_text b) = Inr v"
  shows "\<exists>rows. frame_rows E bodies = Inr rows \<and> length rows = length bodies"
proof -
  have "\<exists>fs. map_exn numeric_row bodies = Inr fs \<and> length fs = length bodies \<and>
          list_all (\<lambda>f. 0 \<le> uppercase_ratio f \<and> uppercase_ratio f \<le> 1) fs"
    by (rule map_exn_total) (rule numeric_row_total)
  then obtain df where df: "add_numeric_features bodies = Inr df" "length df = length bodies"
    unfolding add_numeric_features_def by blast
  have "\<exists>X. map_exn (\<lambda>b. body_tfidf E (clean_text b)) bodies = Inr X \<and>
          length X = length bodies \<and> list_all (\<lambda>v. True) X"
    by (rule map_exn_total) (use assms in auto)
  then obtain X where X: "map_exn (\<lambda>b. body_tfidf E (clean_text b)) bodies = Inr X"
    "length X = length bodies" by blast
  from df X show ?thesis by (simp add: frame_rows_def)
qed

text \<open>
  Claim C8. With an empty model registry, a request carrying a non-empty list of strings
  (on which the body vectorizer returns) is answered with one result per comment, each of
  probability 0.0, status "Safe" and rule \<^verbatim>\<open>""\<close>.
\<close>

theorem empty_registry_all_safe:
  assumes "strip raw \<noteq> []"
    and "json_loads E (strip raw) = Inr (JObj kvs)"
    and "map_of kvs ''comments'' = Some (JArr (map JStr bodies))"
    and "bodies \<noteq> []"
    and "models E = []"
    and "\<forall>b \<in> set bodies. \<exists>v. body_tfidf E (clean_text b) = Inr v"
  shows "process_line E st raw =
         Inr \<lparr> comments_var = Some (JArr (map JStr bodies)),
               out = out st @
                 [Json (JObj [(''comments'', JArr (map JStr bodies)),
                              (''results'',
                               JArr (replicate (length bodies)
                                 (JObj [(''probability'', JFloat 0), (''status'', JStr ''Safe''),
                                        (''rule'', JStr '''')])))])] \<rparr>"
proof -
  let ?safe = "JObj [(''probability'', JFloat 0), (''status'', JStr ''Safe''), (''rule'', JStr '''')]"
  let ?c = "JArr (map JStr bodies)"
  from frame_rows_total [OF assms(6)] obtain rows where
    rows: "frame_rows E bodies = Inr rows" "length rows = length bodies" by blast
  have get: "dict_get (JObj kvs) ''comments'' (JArr []) = Inr ?c"
    using assms(3) by (simp add: dict_get_def)
  have br: "build_rows E ?c = Inr rows"
    by (simp add: build_rows_def all_strings_map_JStr rows(1))
  have "map_exn (\<lambda>(xb, xn). score_comment E xb xn) rows = Inr (replicate (length rows) ?safe)"
    by (rule map_exn_const) (auto simp: score_comment_no_rules [OF assms(5)])
  then have sc: "map_exn (\<lambda>(xb, xn). score_comment E xb xn) rows =
      Inr (replicate (length bodies) ?safe)"
    by (simp only: rows(2))
  have "try_body E (comments_var st) (strip raw) =
      (Some ?c, Inr (JObj [(''comments'', ?c), (''results'', JArr (replicate (length bodies) ?safe))]))"
    unfolding try_body_def by (simp add: assms(2,4) get br sc)
  with assms(1) show ?thesis by (simp add: process_line_def)
qed

theorem empty_registry_all_safe_witness:
  "process_line no_rules_env fresh ''{\"comments\": [\"Buy now!!! http://spam.biz\"]}'' =
   Inr \<lparr> comments_var = Some (JArr [JStr ''Buy now!!! http://spam.biz'']),
         out = [Json (JObj [(''comments'', JArr [JStr ''Buy now!!! http://spam.biz'']),
                            (''results'',
                             JArr [JObj [(''probability'', JFloat 0), (''status'', JStr ''Safe''),
                                         (''rule'', JStr '''')]])])] \<rparr>"
proof -
  let ?line = "''{\"comments\": [\"Buy now!!! http://spam.biz\"]}''"
  have h1: "strip ?line \<noteq> []"
    by (simp add: strip_def isspace_def)
  have h2: "json_loads no_rules_env (strip ?line) =
      Inr (JObj [(''comments'', JArr (map JStr [''Buy now!!! http://spam.biz'']))])"
    by (simp add: strip_def isspace_def no_rules_env_def demo_env_def demo_loads_def)
  have h3: "map_of [(''comments'', JArr (map JStr [''Buy now!!! http://spam.biz'']))] ''comments'' =
      Some (JArr (map JStr [''Buy now!!! http://spam.biz'']))" by simp
  have h4: "[''Buy now!!! http://spam.biz''] \<noteq> []" by simp
  have h5: "models no_rules_env = []" by (simp add: no_rules_env_def)
  have h6: "\<forall>b \<in> set [''Buy now!!! http://spam.biz''].
      \<exists>v. body_tfidf no_rules_env (clean_text b) = Inr v"
    by (simp add: no_rules_env_def demo_env_def)
  show ?thesis
    using empty_registry_all_safe [OF h1 h2 h3 h4 h5 h6, where st = fresh]
    by (simp add: fresh_def)
qed

section \<open>Sessions\<close>

text \<open>
  Claim C1. A line that is not JSON should be answered with an Error-verdict response
  whose \<^verbatim>\<open>comments\<close> field is the empty list, whatever came before. The \<^verbatim>\<open>except\<close> clause
  reads the function-level variable \<^verbatim>\<open>comments\<close>, which still holds the batch of the
  previous request: here the line \<^verbatim>\<open>oops\<close> is answered with the comment of the request
  before it and one "Error" entry.
\<close>

theorem stale_comments_in_error_response:
  "main demo_env [''{\"comments\": [\"Buy now!!! http://spam.biz\"]}'', ''oops''] =
     (\<lparr> comments_var = Some (JArr [JStr ''Buy now!!! http://spam.biz'']),
        out = [Text ''Python server ready.'',
               Json (JObj [(''comments'', JArr [JStr ''Buy now!!! http://spam.biz'']),
                           (''results'', JArr [JObj [(''probability'', JFloat (9/10)),
                                                     (''status'', JStr ''Violates rule''),
                                                     (''rule'', JStr ''spam'')]])]),
               Json (JObj [(''comments'', JArr [JStr ''Buy now!!! http://spam.biz'']),
                           (''results'', JArr [JObj [(''probability'', JFloat 0),
                                                     (''status'', JStr ''Error''),
                                                     (''rule'', JStr ''''),
                                                     (''error'', JStr ''Expecting value: line 1 column 1 (char 0)'')]])])] \<rparr>,
      None)"
  by (simp add: main_def process_line_def try_body_def except_clause_def error_entry_def
      dict_get_def build_rows_def frame_rows_def add_numeric_features_def numeric_row_def
      upper_ratio_def py_truediv_def num_values_def clean_text_def str_simps demo_simps
      char_of_def bit_Suc_0_iff)

text \<open>
  Claim C6. Every non-blank line should get one response and the loop should go on. When
  the first non-blank line of a session is not JSON, \<^verbatim>\<open>comments\<close> was never assigned, the
  list comprehension of the \<^verbatim>\<open>except\<close> clause raises \<^verbatim>\<open>UnboundLocalError\<close>, nothing is
  printed for the line and the process ends: the following line is never read.
\<close>

theorem first_bad_line_ends_process:
  "main demo_env [''oops'', ''{}''] =
     (\<lparr> comments_var = None, out = [Text ''Python server ready.''] \<rparr>, Some UnboundLocalError)"
  by (simp add: main_def process_line_def try_body_def except_clause_def strip_def isspace_def
      demo_env_def demo_loads_def)

end
